theory Spec2Isabelle
  imports Complex_Main "HOL-Library.Sublist"
begin

section \<open>IsoWeather: the card stack of \<open>App.tsx\<close>\<close>

text \<open>
  The development embeds the state of the \<open>App\<close> component of \<open>src/App.tsx\<close> and its
  event handlers. Every \<open>useState\<close> cell and the \<open>dragStartX\<close> ref is a field of one
  record; a handler is a function from the state of the render it was created in to the
  state after all its updates are applied. A handler that awaits a network call is split
  at the \<open>await\<close>: one function for the part that runs at the call, one for the part
  that runs when the promise settles.

  JavaScript numbers that the code uses as indices and offsets are \<open>int\<close>; pixel
  coordinates and the quantities of the layout are \<open>real\<close>.
\<close>

subsection \<open>Data model (\<open>types.ts\<close>)\<close>

datatype AppState = IDLE | FETCHING_WEATHER | GENERATING_IMAGE | EDITING_IMAGE | SUCCESS | ERROR

text \<open>
  \<open>WeatherData\<close> and \<open>GeneratedImage\<close> carry the fields that \<open>App.tsx\<close> reads
  (\<open>weather.id\<close>, \<open>weather.isFictional\<close>, \<open>weather.location.id\<close>); the remaining fields
  of a snapshot, which the component only passes on, are one opaque value.
\<close>

record WeatherData =
  wid :: string
  isFictional :: bool
  location_id :: int
  conditions :: nat

record GeneratedImage =
  url :: string
  viewConfig :: "(real \<times> real \<times> real) option"

record WeatherCardData =
  weather :: WeatherData
  image :: GeneratedImage

record app =
  state :: AppState
  savedCards :: "WeatherCardData list"
  homeBg :: "string option"
  activeIndex :: int
  dragX :: real
  isDragging :: bool
  dragStartX :: "real option"
  screenWidth :: real
  previewCard :: "WeatherCardData option"
  previewDragOffset :: real
  expandedCardId :: "string option"
  refreshingCardId :: "string option"
  showFantasy :: bool
  errorMsg :: string
  isScrolled :: bool

definition initial_app :: app where
  "initial_app =
     \<lparr> state = IDLE, savedCards = [], homeBg = None, activeIndex = 0, dragX = 0,
       isDragging = False, dragStartX = None, screenWidth = 375, previewCard = None,
       previewDragOffset = 0, expandedCardId = None, refreshingCardId = None,
       showFantasy = False, errorMsg = [], isScrolled = False \<rparr>"

text \<open>
  A value of type \<open>string | null\<close> used as a condition (\<open>if (expandedCardId || ...)\<close>,
  \<open>if (refreshingCardId) return\<close>) is true when it is neither \<open>null\<close> nor the empty
  string.
\<close>

definition truthy :: "string option \<Rightarrow> bool" where
  "truthy v = (case v of None \<Rightarrow> False | Some t \<Rightarrow> t \<noteq> [])"

text \<open>What a JavaScript expression of type \<open>T | null | undefined\<close> evaluates to.\<close>

datatype 'a js_value = JsNull | JsUndefined | JsValue 'a

subsection \<open>Cyclic index (\<open>getCardData\<close>)\<close>

text \<open>
  The \<open>%\<close> operator of JavaScript on integers: the remainder of the division that
  truncates towards zero, so the result has the sign of the dividend. \<open>a % 0\<close> is
  \<open>NaN\<close>; every use in \<open>App.tsx\<close> is behind a check that the divisor, the length of
  a non-empty array, is positive.
\<close>

definition js_rem :: "int \<Rightarrow> int \<Rightarrow> int" where
  "js_rem a b = sgn a * (\<bar>a\<bar> mod \<bar>b\<bar>)"

definition wrappedIndex :: "int \<Rightarrow> int \<Rightarrow> int" where
  "wrappedIndex index len = js_rem (js_rem index len + len) len"

text \<open>
  \<open>savedCards[wrappedIndex]\<close> is \<open>undefined\<close> when the index is outside the array.
\<close>

definition getCardData :: "app \<Rightarrow> int \<Rightarrow> WeatherCardData js_value" where
  "getCardData s index =
     (if length (savedCards s) = 0 then JsNull
      else let w = wrappedIndex index (int (length (savedCards s)))
           in if 0 \<le> w \<and> w < int (length (savedCards s))
              then JsValue (savedCards s ! nat w) else JsUndefined)"

subsection \<open>Gesture handlers\<close>

definition SWIPE_THRESHOLD :: real where
  "SWIPE_THRESHOLD = 100"

definition DRAG_THRESHOLD :: real where
  "DRAG_THRESHOLD = 5"

text \<open>The argument is \<open>clientX\<close> of the event (of its first touch for a touch event).\<close>

definition handleTouchStart :: "real \<Rightarrow> app \<Rightarrow> app" where
  "handleTouchStart clientX s =
     (if truthy (expandedCardId s) \<or> previewCard s \<noteq> None \<or> length (savedCards s) = 0 then s
      else s\<lparr>dragStartX := Some clientX\<rparr>)"

text \<open>
  \<open>isDragging\<close> in the second test is the value of the render the handler belongs to,
  not the value just set: the move that crosses the threshold does not set \<open>dragX\<close>.
\<close>

definition handleTouchMove :: "real \<Rightarrow> app \<Rightarrow> app" where
  "handleTouchMove clientX s =
     (case dragStartX s of
        None \<Rightarrow> s
      | Some start \<Rightarrow>
          if truthy (expandedCardId s) \<or> previewCard s \<noteq> None then s
          else let delta = clientX - start;
                   s1 = (if \<not> isDragging s \<and> \<bar>delta\<bar> > DRAG_THRESHOLD
                         then s\<lparr>isDragging := True\<rparr> else s)
               in if isDragging s then s1\<lparr>dragX := delta\<rparr> else s1)"

definition handleTouchEnd :: "app \<Rightarrow> app" where
  "handleTouchEnd s =
     (case dragStartX s of
        None \<Rightarrow> s
      | Some start \<Rightarrow>
          let s1 = (if isDragging s then
                      (if \<bar>dragX s\<bar> > SWIPE_THRESHOLD then
                         (if dragX s > 0 then s\<lparr>activeIndex := activeIndex s - 1\<rparr>
                          else s\<lparr>activeIndex := activeIndex s + 1\<rparr>)
                       else s)
                    else s)
          in s1\<lparr>dragX := 0, dragStartX := None, isDragging := False\<rparr>)"

subsection \<open>Layout (\<open>getCardStyle\<close>)\<close>

text \<open>
  The returned style: \<open>translateX\<close> and \<open>scale\<close> are the two numbers of the
  \<open>transform\<close> string, \<open>transition_none\<close> says that the \<open>transition\<close> is \<open>'none'\<close>.
  \<open>Math.round x\<close> is \<open>\<lfloor>x + 1/2\<rfloor>\<close>, which is \<open>round\<close>. \<open>screenWidth\<close> is
  \<open>window.innerWidth\<close>, a positive number where the division is concerned.
\<close>

record card_style =
  translateX :: real
  scale :: real
  zIndex :: int
  opacity :: real
  transition_none :: bool

definition getCardStyle :: "app \<Rightarrow> int \<Rightarrow> card_style" where
  "getCardStyle s relativeOffset =
     (let cardWidth = min 340 (screenWidth s * 0.9);
          progress = real_of_int relativeOffset + dragX s / screenWidth s;
          peekAmount = 20;
          parkX = - (screenWidth s / 2) - (cardWidth / 2) + peekAmount
      in if progress < 0 then
           \<lparr> translateX = progress * \<bar>parkX\<bar>,
             scale = max 0.5 (1 + max progress (- 1) * 0.05),
             zIndex = 200 + round (\<bar>progress\<bar> * 10),
             opacity = (if progress < - 0.2 then max 0 (1 - (\<bar>progress\<bar> - 0.2) * 1.5) else 1),
             transition_none = isDragging s \<rparr>
         else
           \<lparr> translateX = progress * 20,
             scale = max 0.5 (1 - progress * 0.05),
             zIndex = 100 - \<lceil>progress\<rceil>,
             opacity = (if progress > 3 then max 0 (1 - (progress - 3)) else 1),
             transition_none = isDragging s \<rparr>)"

subsection \<open>The render window\<close>

text \<open>
  The stack container, with the gesture handlers and the cards, is in the tree when
  \<open>savedCards.length > 0 && !expandedCardId\<close>.
\<close>

definition stack_rendered :: "app \<Rightarrow> bool" where
  "stack_rendered s = (length (savedCards s) > 0 \<and> \<not> truthy (expandedCardId s))"

definition window_offsets :: "int list" where
  "window_offsets = [- 2, - 1, 0, 1, 2, 3, 4]"

text \<open>The callback of the \<open>map\<close> over the offsets: \<open>None\<close> where it returns \<open>null\<close>.\<close>

definition renderSlot :: "app \<Rightarrow> int \<Rightarrow> WeatherCardData option" where
  "renderSlot s offset =
     (let activeLength = int (length (savedCards s));
          visibleStackLimit = min activeLength 3
      in if offset > 0 \<and> offset \<ge> visibleStackLimit then None
         else if activeLength = 1 \<and> offset \<noteq> 0 then None
         else (case getCardData s (activeIndex s + offset) of
                 JsValue cardData \<Rightarrow> Some cardData
               | _ \<Rightarrow> None))"

text \<open>The cards in the tree, each with the offset it is rendered at.\<close>

definition renderWindow :: "app \<Rightarrow> (int \<times> WeatherCardData) list" where
  "renderWindow s =
     (if stack_rendered s
      then List.map_filter (\<lambda>offset. map_option (Pair offset) (renderSlot s offset)) window_offsets
      else [])"

text \<open>
  Pointer events reach the gesture handlers through the stack container only
  (\<open>onTouchStart\<close>/\<open>onMouseDown\<close>, \<open>onTouchMove\<close>/\<open>onMouseMove\<close>,
  \<open>onTouchEnd\<close>/\<open>onMouseUp\<close>/\<open>onMouseLeave\<close>).
\<close>

definition stack_onTouchStart :: "real \<Rightarrow> app \<Rightarrow> app" where
  "stack_onTouchStart clientX s = (if stack_rendered s then handleTouchStart clientX s else s)"

definition stack_onTouchMove :: "real \<Rightarrow> app \<Rightarrow> app" where
  "stack_onTouchMove clientX s = (if stack_rendered s then handleTouchMove clientX s else s)"

definition stack_onTouchEnd :: "app \<Rightarrow> app" where
  "stack_onTouchEnd s = (if stack_rendered s then handleTouchEnd s else s)"

text \<open>The \<open>onClick\<close> of the card rendered at an offset; no card there, no handler.\<close>

definition card_onClick :: "int \<Rightarrow> app \<Rightarrow> app" where
  "card_onClick offset s =
     (case map_of (renderWindow s) offset of
        None \<Rightarrow> s
      | Some cardData \<Rightarrow>
          if offset = 0 \<and> \<not> isDragging s then s\<lparr>expandedCardId := Some (wid (weather cardData))\<rparr>
          else if offset \<noteq> 0 \<and> \<not> isDragging s then s\<lparr>activeIndex := activeIndex s + offset\<rparr>
          else s)"

subsection \<open>Actions\<close>

definition handleRemoveCard :: "string \<Rightarrow> app \<Rightarrow> app" where
  "handleRemoveCard i s =
     (let newCards = filter (\<lambda>c. wid (weather c) \<noteq> i) (savedCards s)
      in if length newCards = 0
         then s\<lparr>savedCards := newCards, state := IDLE, activeIndex := 0\<rparr>
         else s\<lparr>savedCards := newCards\<rparr>)"

text \<open>The remove button is on the card at offset \<open>0\<close>.\<close>

definition remove_onClick :: "app \<Rightarrow> app" where
  "remove_onClick s =
     (case map_of (renderWindow s) 0 of
        None \<Rightarrow> s
      | Some cardData \<Rightarrow> handleRemoveCard (wid (weather cardData)) s)"

text \<open>
  \<open>setActiveIndex(savedCards.length)\<close> reads the array of the current render, the one
  before the append.
\<close>

definition handleSavePreview :: "app \<Rightarrow> app" where
  "handleSavePreview s =
     (case previewCard s of
        None \<Rightarrow> s
      | Some p \<Rightarrow>
          s\<lparr>savedCards := savedCards s @ [p], activeIndex := int (length (savedCards s)),
            previewCard := None, previewDragOffset := 0, isScrolled := False, state := IDLE\<rparr>)"

text \<open>\<open>onToggleExpand\<close> of the preview overlay (cancel) and of the expanded overlay (close).\<close>

definition preview_onToggleExpand :: "app \<Rightarrow> app" where
  "preview_onToggleExpand s =
     (if previewCard s \<noteq> None
      then s\<lparr>previewCard := None, previewDragOffset := 0, isScrolled := False\<rparr> else s)"

definition expanded_onToggleExpand :: "app \<Rightarrow> app" where
  "expanded_onToggleExpand s =
     (if truthy (expandedCardId s)
         \<and> find (\<lambda>c. Some (wid (weather c)) = expandedCardId s) (savedCards s) \<noteq> None
      then s\<lparr>expandedCardId := None, isScrolled := False\<rparr> else s)"

text \<open>
  \<open>handleFantasyCreate\<close>: the part before the \<open>await\<close>, and the two ways the promise
  settles.
\<close>

definition handleFantasyCreate_begin :: "app \<Rightarrow> app" where
  "handleFantasyCreate_begin s = s\<lparr>state := GENERATING_IMAGE, errorMsg := [], showFantasy := False\<rparr>"

definition handleFantasyCreate_resolved :: "WeatherCardData \<Rightarrow> app \<Rightarrow> app" where
  "handleFantasyCreate_resolved newCard s = s\<lparr>previewCard := Some newCard, state := SUCCESS\<rparr>"

definition handleFantasyCreate_rejected :: "app \<Rightarrow> app" where
  "handleFantasyCreate_rejected s =
     s\<lparr>errorMsg := ''Failed to construct fantasy world. The simulation grid may be unstable.'',
       state := ERROR\<rparr>"

text \<open>
  \<open>handleRefresh\<close>. The part before the first \<open>await\<close> returns the new state and the
  request it has started, if any. The part after takes the card (\<open>theCard\<close>) and the \<open>previewCard\<close>
  of the render the call was made in, and what the services returned.
\<close>

definition handleRefresh_begin :: "WeatherCardData \<Rightarrow> app \<Rightarrow> app \<times> WeatherCardData option" where
  "handleRefresh_begin theCard s =
     (if truthy (refreshingCardId s) then (s, None)
      else (s\<lparr>refreshingCardId := Some (wid (weather theCard))\<rparr>, Some theCard))"

datatype refresh_outcome =
    Rejected
  | Regenerated GeneratedImage
  | Refetched WeatherData GeneratedImage

text \<open>
  The \<open>if (previewCard?.weather.id === card.weather.id) ... else ...\<close> of both branches.
\<close>

definition refresh_store :: "WeatherCardData \<Rightarrow> WeatherCardData option \<Rightarrow> WeatherCardData \<Rightarrow> app \<Rightarrow> app" where
  "refresh_store theCard preview updatedCard s =
     (if map_option (\<lambda>p. wid (weather p)) preview = Some (wid (weather theCard))
      then s\<lparr>previewCard := Some updatedCard\<rparr>
      else s\<lparr>savedCards :=
               map (\<lambda>c. if wid (weather c) = wid (weather theCard) then updatedCard else c) (savedCards s)\<rparr>)"

text \<open>
  A fictional card awaits \<open>regenerateFantasyScene\<close> only, a real one the weather and the
  scene; an exception, which is all another outcome can be, is caught and logged. The
  \<open>finally\<close> clears \<open>refreshingCardId\<close>.
\<close>

definition handleRefresh_settled ::
    "WeatherCardData \<Rightarrow> WeatherCardData option \<Rightarrow> refresh_outcome \<Rightarrow> app \<Rightarrow> app" where
  "handleRefresh_settled theCard preview outcome s =
     (let s1 = (if isFictional (weather theCard) then
                  (case outcome of
                     Regenerated updatedImage \<Rightarrow>
                       refresh_store theCard preview (theCard\<lparr>image := updatedImage\<rparr>) s
                   | _ \<Rightarrow> s)
                else
                  (case outcome of
                     Refetched weatherData generatedImage \<Rightarrow>
                       refresh_store theCard preview
                         \<lparr>weather = weatherData, image = generatedImage\<rparr> s
                   | _ \<Rightarrow> s))
      in s1\<lparr>refreshingCardId := None\<rparr>)"

subsection \<open>Events\<close>

datatype event =
    TouchStart real
  | TouchMove real
  | TouchEnd
  | CardClick int
  | RemoveClick
  | SavePreview
  | CancelPreview
  | CloseExpanded
  | FantasyCreate
  | FantasyResolved WeatherCardData
  | FantasyRejected

fun fire :: "app \<Rightarrow> event \<Rightarrow> app" where
  "fire s (TouchStart clientX) = stack_onTouchStart clientX s"
| "fire s (TouchMove clientX) = stack_onTouchMove clientX s"
| "fire s TouchEnd = stack_onTouchEnd s"
| "fire s (CardClick offset) = card_onClick offset s"
| "fire s RemoveClick = remove_onClick s"
| "fire s SavePreview = handleSavePreview s"
| "fire s CancelPreview = preview_onToggleExpand s"
| "fire s CloseExpanded = expanded_onToggleExpand s"
| "fire s FantasyCreate = handleFantasyCreate_begin s"
| "fire s (FantasyResolved newCard) = handleFantasyCreate_resolved newCard s"
| "fire s FantasyRejected = handleFantasyCreate_rejected s"

definition run :: "event list \<Rightarrow> app" where
  "run evs = foldl fire initial_app evs"

subsection \<open>Sample data\<close>

definition sample_card :: "string \<Rightarrow> WeatherCardData" where
  "sample_card i =
     \<lparr> weather = \<lparr> wid = i, isFictional = False, location_id = 0, conditions = 0 \<rparr>,
       image = \<lparr> url = i, viewConfig = None \<rparr> \<rparr>"

definition sample_stack :: "string list \<Rightarrow> app" where
  "sample_stack ids = initial_app\<lparr>savedCards := map sample_card ids\<rparr>"


text \<open>A card \<open>n\<close> in preview over a stack of two.\<close>

definition previewing :: app where
  "previewing = (sample_stack [''a'', ''b''])\<lparr>previewCard := Some (sample_card ''n''), state := SUCCESS\<rparr>"

text \<open>Stacks of one and of three cards, the cursor seven steps on.\<close>

definition browsing :: app where
  "browsing = (sample_stack [''a''])\<lparr>activeIndex := 7, state := SUCCESS\<rparr>"

definition browsing3 :: app where
  "browsing3 = (sample_stack [''a'', ''b'', ''c''])\<lparr>activeIndex := 7, state := SUCCESS\<rparr>"

text \<open>Card \<open>a\<close> expanded, with a start position left in the ref.\<close>

definition expanded_a :: app where
  "expanded_a = (sample_stack [''a'', ''b''])\<lparr>expandedCardId := Some ''a'', dragStartX := Some 0\<rparr>"

text \<open>A refresh of card \<open>a\<close> under way.\<close>

definition refreshing_a :: app where
  "refreshing_a = fst (handleRefresh_begin (sample_card ''a'') (sample_stack [''a'', ''b'']))"

text \<open>
  A card is created and saved, then a second one is created: it is in preview over a
  stack of one card.
\<close>

definition preview_run :: "event list" where
  "preview_run = [FantasyCreate, FantasyResolved (sample_card ''a''), SavePreview,
                  FantasyCreate, FantasyResolved (sample_card ''n'')]"

subsection \<open>Quantities of the proofs\<close>

text \<open>The distance \<open>Math.abs(parkX)\<close> of \<open>getCardStyle\<close>.\<close>

definition parked :: "app \<Rightarrow> real" where
  "parked s = \<bar>- (screenWidth s / 2) - (min 340 (screenWidth s * 0.9) / 2) + 20\<bar>"

section \<open>Properties\<close>

subsection \<open>Cyclic wrap\<close>

lemma js_rem_nonneg: "0 \<le> a \<Longrightarrow> 0 < b \<Longrightarrow> js_rem a b = a mod b"
  by (cases "a = 0") (simp_all add: js_rem_def)

lemma js_rem_neg: "a < 0 \<Longrightarrow> 0 < b \<Longrightarrow> js_rem a b = - ((- a) mod b)"
  by (simp add: js_rem_def)

lemma wrappedIndex_mod:
  assumes "0 < n"
  shows "wrappedIndex i n = i mod n"
proof (cases "0 \<le> i")
  case True
  then have "js_rem i n = i mod n"
    using assms by (simp add: js_rem_nonneg)
  moreover have "0 \<le> i mod n + n"
    using assms by (simp add: add_nonneg_nonneg)
  ultimately show ?thesis
    using assms by (simp add: wrappedIndex_def js_rem_nonneg)
next
  case False
  then have r: "js_rem i n = - ((- i) mod n)"
    using assms by (simp add: js_rem_neg)
  have "(- i) mod n < n"
    using assms by simp
  then have "0 \<le> - ((- i) mod n) + n"
    by simp
  then have "wrappedIndex i n = (- ((- i) mod n) + n) mod n"
    using assms r by (simp add: wrappedIndex_def js_rem_nonneg)
  also have "\<dots> = (- ((- i) mod n)) mod n"
    by simp
  also have "\<dots> = (- (- i)) mod n"
    by (simp only: mod_minus_eq)
  finally show ?thesis by simp
qed

lemma getCardData_nonempty:
  assumes "savedCards s \<noteq> []"
  shows "getCardData s i = JsValue (savedCards s ! nat (i mod int (length (savedCards s))))"
  using assms by (simp add: getCardData_def Let_def wrappedIndex_mod)

text \<open>
  C1. For every integer index \<open>i\<close> and every collection length \<open>N > 0\<close> the wrapped index
  \<open>((i % N) + N) % N\<close> lies in \<open>[0, N)\<close>, and \<open>i\<close> and \<open>i + N\<close> wrap to the same index;
  \<open>getCardData\<close> returns \<open>null\<close> on an empty collection and otherwise the card at the
  wrapped index.
\<close>

theorem cyclic_wrap_correct:
  "(0 < N \<longrightarrow> 0 \<le> wrappedIndex i N \<and> wrappedIndex i N < N
              \<and> wrappedIndex (i + N) N = wrappedIndex i N)
   \<and> (savedCards s = [] \<longrightarrow> getCardData s i = JsNull)
   \<and> (savedCards s \<noteq> [] \<longrightarrow>
        getCardData s i = JsValue (savedCards s ! nat (wrappedIndex i (int (length (savedCards s))))))"
proof (intro conjI impI)
  assume n: "0 < N"
  show "0 \<le> wrappedIndex i N" using n by (simp add: wrappedIndex_mod)
  show "wrappedIndex i N < N" using n by (simp add: wrappedIndex_mod)
  show "wrappedIndex (i + N) N = wrappedIndex i N" using n by (simp add: wrappedIndex_mod)
next
  assume "savedCards s = []"
  then show "getCardData s i = JsNull" by (simp add: getCardData_def)
next
  assume ne: "savedCards s \<noteq> []"
  then have "0 < int (length (savedCards s))" by simp
  then show "getCardData s i
      = JsValue (savedCards s ! nat (wrappedIndex i (int (length (savedCards s)))))"
    using ne by (simp add: getCardData_def Let_def wrappedIndex_mod)
qed

text \<open>Witness of C1: index \<open>-1\<close> over three cards, and the empty collection.\<close>

theorem cyclic_wrap_correct_witness:
  "(0::int) < 3 \<and> wrappedIndex (- 1) 3 = 2 \<and> wrappedIndex (- 1 + 3) 3 = 2
   \<and> savedCards initial_app = [] \<and> getCardData initial_app (- 1) = JsNull
   \<and> savedCards (sample_stack [''a'', ''b'', ''c'']) \<noteq> []
   \<and> getCardData (sample_stack [''a'', ''b'', ''c'']) (- 1) = JsValue (sample_card ''c'')"
  using cyclic_wrap_correct [of 3 "- 1" initial_app]
        cyclic_wrap_correct [of 3 "- 1" "sample_stack [''a'', ''b'', ''c'']"]
  by (simp add: sample_stack_def initial_app_def wrappedIndex_def js_rem_def)

subsection \<open>Render window\<close>

lemma getCardData_two:
  assumes "length (savedCards s) = 2"
  shows "getCardData s i = JsValue (savedCards s ! nat (i mod 2))"
  using assms by (simp add: getCardData_def Let_def wrappedIndex_mod)

lemma renderSlot_one:
  assumes "length (savedCards s) = 1"
  shows "renderSlot s offset = (if offset = 0 then Some (savedCards s ! 0) else None)"
  using assms by (simp add: renderSlot_def getCardData_def Let_def wrappedIndex_mod)

lemma renderSlot_two:
  assumes "length (savedCards s) = 2"
  shows "renderSlot s offset =
           (if offset \<ge> 2 then None else Some (savedCards s ! nat ((activeIndex s + offset) mod 2)))"
  using assms by (simp add: renderSlot_def getCardData_two Let_def)

lemma renderWindow_one:
  assumes "stack_rendered s" "length (savedCards s) = 1"
  shows "renderWindow s = [(0, savedCards s ! 0)]"
  using assms by (simp add: renderWindow_def window_offsets_def renderSlot_one)

lemma renderWindow_two:
  assumes "stack_rendered s" "length (savedCards s) = 2"
  shows "renderWindow s =
          [(- 2, savedCards s ! nat (activeIndex s mod 2)),
           (- 1, savedCards s ! nat ((activeIndex s + 1) mod 2)),
           (0, savedCards s ! nat (activeIndex s mod 2)),
           (1, savedCards s ! nat ((activeIndex s + 1) mod 2))]"
proof -
  have a: "(activeIndex s + - 2) mod 2 = activeIndex s mod 2"
    by presburger
  have b: "(activeIndex s + - 1) mod 2 = (activeIndex s + 1) mod 2"
    by presburger
  show ?thesis
    using assms a b
    by (simp add: renderWindow_def window_offsets_def renderSlot_two)
qed

lemma wrapped_neighbours_differ: "nat (a mod 2) \<noteq> nat ((a + 1) mod 2)"
proof -
  have "a mod 2 = 0 \<and> (a + 1) mod 2 = 1 \<or> a mod 2 = 1 \<and> (a + 1) mod 2 = 0"
    by presburger
  then show ?thesis by auto
qed

text \<open>
  C2 (amended). In the stack view, with one card only offset \<open>0\<close> renders. With two cards
  the offsets \<open>-2, -1, 0, 1\<close> render: only positive offsets are culled. The rendered
  offsets \<open>0\<close> and \<open>1\<close> resolve to the two different positions of the collection, and
  \<open>-2\<close> and \<open>-1\<close> resolve to the same cards as \<open>0\<close> and \<open>1\<close>.
\<close>

theorem window_cull:
  "stack_rendered s \<longrightarrow>
     (length (savedCards s) = 1 \<longrightarrow> map fst (renderWindow s) = [0])
   \<and> (length (savedCards s) = 2 \<longrightarrow>
        map fst (renderWindow s) = [- 2, - 1, 0, 1]
      \<and> filter (\<lambda>offset. 0 \<le> offset) (map fst (renderWindow s)) = [0, 1]
      \<and> map_of (renderWindow s) 0 = Some (savedCards s ! nat (activeIndex s mod 2))
      \<and> map_of (renderWindow s) 1 = Some (savedCards s ! nat ((activeIndex s + 1) mod 2))
      \<and> nat (activeIndex s mod 2) \<noteq> nat ((activeIndex s + 1) mod 2)
      \<and> map_of (renderWindow s) (- 2) = map_of (renderWindow s) 0
      \<and> map_of (renderWindow s) (- 1) = map_of (renderWindow s) 1)"
proof (intro impI conjI)
  assume r: "stack_rendered s" and l: "length (savedCards s) = 1"
  show "map fst (renderWindow s) = [0]"
    using r l by (simp add: renderWindow_one)
next
  assume r: "stack_rendered s" and l: "length (savedCards s) = 2"
  note w = renderWindow_two [OF r l]
  show "map fst (renderWindow s) = [- 2, - 1, 0, 1]" by (simp add: w)
  show "filter (\<lambda>offset. 0 \<le> offset) (map fst (renderWindow s)) = [0, 1]" by (simp add: w)
  show "map_of (renderWindow s) 0 = Some (savedCards s ! nat (activeIndex s mod 2))"
    by (simp add: w)
  show "map_of (renderWindow s) 1 = Some (savedCards s ! nat ((activeIndex s + 1) mod 2))"
    by (simp add: w)
  show "nat (activeIndex s mod 2) \<noteq> nat ((activeIndex s + 1) mod 2)"
    by (rule wrapped_neighbours_differ)
  show "map_of (renderWindow s) (- 2) = map_of (renderWindow s) 0" by (simp add: w)
  show "map_of (renderWindow s) (- 1) = map_of (renderWindow s) 1" by (simp add: w)
qed

lemma sample_stack_rendered: "stack_rendered (sample_stack (i # ids))"
  by (simp add: stack_rendered_def sample_stack_def initial_app_def truthy_def)

text \<open>
  C2 as stated fails: with the two cards \<open>a\<close> and \<open>b\<close> four offsets render, not
  \<open>{0, 1}\<close>, and each card is rendered at two offsets.
\<close>

theorem window_cull_counterexample:
  "stack_rendered (sample_stack [''a'', ''b''])
   \<and> length (savedCards (sample_stack [''a'', ''b''])) = 2
   \<and> map fst (renderWindow (sample_stack [''a'', ''b''])) = [- 2, - 1, 0, 1]
   \<and> set (map fst (renderWindow (sample_stack [''a'', ''b'']))) \<noteq> {0, 1}
   \<and> map (wid \<circ> weather \<circ> snd) (renderWindow (sample_stack [''a'', ''b'']))
       = [''a'', ''b'', ''a'', ''b'']
   \<and> \<not> distinct (map (wid \<circ> weather \<circ> snd) (renderWindow (sample_stack [''a'', ''b''])))"
proof -
  have r: "stack_rendered (sample_stack [''a'', ''b''])"
    by (rule sample_stack_rendered)
  have l: "length (savedCards (sample_stack [''a'', ''b''])) = 2"
    by (simp add: sample_stack_def)
  have w: "renderWindow (sample_stack [''a'', ''b''])
             = [(- 2, sample_card ''a''), (- 1, sample_card ''b''),
                (0, sample_card ''a''), (1, sample_card ''b'')]"
    by (simp add: renderWindow_two [OF r l]) (simp add: sample_stack_def initial_app_def)
  have "(- 2::int) \<notin> {0, 1}" by simp
  then have "{- 2, - 1, 0, 1} \<noteq> {0, 1::int}" by blast
  then show ?thesis
    using r l by (simp add: w sample_card_def)
qed

theorem window_cull_witness:
  "stack_rendered (sample_stack [''a''])
   \<and> length (savedCards (sample_stack [''a''])) = 1
   \<and> map fst (renderWindow (sample_stack [''a''])) = [0]
   \<and> stack_rendered (sample_stack [''a'', ''b''])
   \<and> length (savedCards (sample_stack [''a'', ''b''])) = 2
   \<and> map fst (renderWindow (sample_stack [''a'', ''b''])) = [- 2, - 1, 0, 1]
   \<and> map_of (renderWindow (sample_stack [''a'', ''b''])) 0 = Some (sample_card ''a'')
   \<and> map_of (renderWindow (sample_stack [''a'', ''b''])) 1 = Some (sample_card ''b'')"
  using window_cull [of "sample_stack [''a'']"] window_cull [of "sample_stack [''a'', ''b'']"]
    sample_stack_rendered [of "''a''" "[]"] sample_stack_rendered [of "''a''" "[''b'']"]
  by (simp add: sample_stack_def initial_app_def)

subsection \<open>Swipe commit\<close>









subsection \<open>Saving and cancelling a preview\<close>

text \<open>
  C5. Saving a preview appends the preview card, and nothing else, to the collection,
  sets \<open>activeIndex\<close> to the length before the append, which wraps to the last slot, where
  the saved card is, and clears the preview. Cancelling clears the preview and leaves the
  collection as it is.
\<close>

theorem save_promotes_once:
  assumes "previewCard s = Some p"
  shows "savedCards (handleSavePreview s) = savedCards s @ [p]
       \<and> length (savedCards (handleSavePreview s)) = length (savedCards s) + 1
       \<and> activeIndex (handleSavePreview s) = int (length (savedCards s))
       \<and> wrappedIndex (activeIndex (handleSavePreview s))
            (int (length (savedCards (handleSavePreview s))))
           = int (length (savedCards (handleSavePreview s))) - 1
       \<and> getCardData (handleSavePreview s) (activeIndex (handleSavePreview s)) = JsValue p
       \<and> previewCard (handleSavePreview s) = None
       \<and> savedCards (preview_onToggleExpand s) = savedCards s
       \<and> previewCard (preview_onToggleExpand s) = None"
proof -
  let ?t = "handleSavePreview s"
  have t: "?t = s\<lparr>savedCards := savedCards s @ [p], activeIndex := int (length (savedCards s)),
                   previewCard := None, previewDragOffset := 0, isScrolled := False,
                   state := IDLE\<rparr>"
    using assms by (simp add: handleSavePreview_def)
  have m: "int (length (savedCards s)) mod (int (length (savedCards s)) + 1)
             = int (length (savedCards s))"
    by simp
  have g: "getCardData ?t (activeIndex ?t) = JsValue p"
    by (simp add: getCardData_nonempty t m)
  show ?thesis
    using g by (simp add: t wrappedIndex_mod preview_onToggleExpand_def assms)
qed

theorem save_promotes_once_witness:
  "previewCard previewing = Some (sample_card ''n'')
   \<and> savedCards (handleSavePreview previewing) = map sample_card [''a'', ''b'', ''n'']
   \<and> activeIndex (handleSavePreview previewing) = 2
   \<and> getCardData (handleSavePreview previewing) 2 = JsValue (sample_card ''n'')
   \<and> previewCard (handleSavePreview previewing) = None
   \<and> savedCards (preview_onToggleExpand previewing) = map sample_card [''a'', ''b'']
   \<and> previewCard (preview_onToggleExpand previewing) = None"
  using save_promotes_once [of previewing "sample_card ''n''"]
  by (simp add: previewing_def sample_stack_def initial_app_def handleSavePreview_def
      preview_onToggleExpand_def)

subsection \<open>Removing a card\<close>

text \<open>
  C9. Removing by its id the only card of the collection leaves the collection empty,
  \<open>activeIndex\<close> at \<open>0\<close> and the application state \<open>IDLE\<close>.
\<close>

theorem remove_sole_card:
  assumes "savedCards s = [c]"
  shows "savedCards (handleRemoveCard (wid (weather c)) s) = []
       \<and> activeIndex (handleRemoveCard (wid (weather c)) s) = 0
       \<and> state (handleRemoveCard (wid (weather c)) s) = IDLE"
  using assms by (simp add: handleRemoveCard_def)

theorem remove_sole_card_witness:
  "savedCards browsing = [sample_card ''a'']
   \<and> savedCards (handleRemoveCard ''a'' browsing) = []
   \<and> activeIndex (handleRemoveCard ''a'' browsing) = 0
   \<and> state (handleRemoveCard ''a'' browsing) = IDLE"
  using remove_sole_card [of browsing "sample_card ''a''"]
  by (simp add: browsing_def sample_stack_def sample_card_def)

text \<open>
  C10. \<open>handleRemoveCard\<close> keeps, in their order, the cards whose \<open>weather.id\<close> differs from
  the given id and removes the others; when a card is left it changes nothing but the
  collection, so \<open>activeIndex\<close>, the application state, the expanded card and the preview
  are as before.
\<close>

theorem remove_frame:
  "savedCards (handleRemoveCard i s) = filter (\<lambda>c. wid (weather c) \<noteq> i) (savedCards s)
   \<and> set (savedCards (handleRemoveCard i s)) = {c \<in> set (savedCards s). wid (weather c) \<noteq> i}
   \<and> subseq (savedCards (handleRemoveCard i s)) (savedCards s)
   \<and> (savedCards (handleRemoveCard i s) \<noteq> [] \<longrightarrow>
        handleRemoveCard i s = s\<lparr>savedCards := filter (\<lambda>c. wid (weather c) \<noteq> i) (savedCards s)\<rparr>
      \<and> activeIndex (handleRemoveCard i s) = activeIndex s
      \<and> state (handleRemoveCard i s) = state s
      \<and> expandedCardId (handleRemoveCard i s) = expandedCardId s
      \<and> previewCard (handleRemoveCard i s) = previewCard s)"
proof -
  have f: "savedCards (handleRemoveCard i s) = filter (\<lambda>c. wid (weather c) \<noteq> i) (savedCards s)"
    by (simp add: handleRemoveCard_def Let_def)
  have k: "savedCards (handleRemoveCard i s) \<noteq> [] \<Longrightarrow>
        handleRemoveCard i s = s\<lparr>savedCards := filter (\<lambda>c. wid (weather c) \<noteq> i) (savedCards s)\<rparr>"
    by (simp add: handleRemoveCard_def Let_def split: if_splits)
  show ?thesis
  proof (intro conjI impI)
    show "savedCards (handleRemoveCard i s) = filter (\<lambda>c. wid (weather c) \<noteq> i) (savedCards s)"
      by (rule f)
    show "set (savedCards (handleRemoveCard i s)) = {c \<in> set (savedCards s). wid (weather c) \<noteq> i}"
      by (simp add: f)
    show "subseq (savedCards (handleRemoveCard i s)) (savedCards s)"
      by (simp add: f subseq_filter_left)
  next
    assume ne: "savedCards (handleRemoveCard i s) \<noteq> []"
    show "handleRemoveCard i s = s\<lparr>savedCards := filter (\<lambda>c. wid (weather c) \<noteq> i) (savedCards s)\<rparr>"
      by (rule k [OF ne])
    show "activeIndex (handleRemoveCard i s) = activeIndex s" by (simp add: k [OF ne])
    show "state (handleRemoveCard i s) = state s" by (simp add: k [OF ne])
    show "expandedCardId (handleRemoveCard i s) = expandedCardId s" by (simp add: k [OF ne])
    show "previewCard (handleRemoveCard i s) = previewCard s" by (simp add: k [OF ne])
  qed
qed

theorem remove_frame_witness:
  "savedCards (handleRemoveCard ''b'' browsing3) = map sample_card [''a'', ''c'']
   \<and> savedCards (handleRemoveCard ''b'' browsing3) \<noteq> []
   \<and> activeIndex (handleRemoveCard ''b'' browsing3) = 7
   \<and> state (handleRemoveCard ''b'' browsing3) = SUCCESS"
  using remove_frame [of "''b''" browsing3]
  by (simp add: browsing3_def sample_stack_def sample_card_def initial_app_def)

subsection \<open>Gestures while the stack is disabled\<close>

text \<open>
  C7. While a card is expanded, or a preview is shown, or the collection is empty, a
  pointer-down and a pointer-move on the stack leave the whole state as it is. Pointer-down
  is refused by \<open>handleTouchStart\<close> in the three cases and pointer-move by
  \<open>handleTouchMove\<close> in the first two; with an empty collection the stack container, which
  carries the handlers, is not rendered.
\<close>

theorem gestures_ignored_when_disabled:
  assumes "truthy (expandedCardId s) \<or> previewCard s \<noteq> None \<or> savedCards s = []"
  shows "stack_onTouchStart x s = s \<and> stack_onTouchMove x s = s
       \<and> handleTouchStart x s = s
       \<and> (truthy (expandedCardId s) \<or> previewCard s \<noteq> None \<longrightarrow> handleTouchMove x s = s)"
proof (intro conjI impI)
  show a: "handleTouchStart x s = s"
    using assms by (auto simp add: handleTouchStart_def)
  show "stack_onTouchStart x s = s"
    by (simp add: stack_onTouchStart_def a)
  show "stack_onTouchMove x s = s"
    using assms
    by (auto simp add: stack_onTouchMove_def stack_rendered_def handleTouchMove_def
        split: option.splits)
next
  assume "truthy (expandedCardId s) \<or> previewCard s \<noteq> None"
  then show "handleTouchMove x s = s"
    by (auto simp add: handleTouchMove_def split: option.splits)
qed

theorem gestures_ignored_when_disabled_witness:
  "truthy (expandedCardId expanded_a) \<and> previewCard previewing \<noteq> None
   \<and> savedCards initial_app = []
   \<and> stack_onTouchStart 10 expanded_a = expanded_a \<and> stack_onTouchMove 50 expanded_a = expanded_a
   \<and> handleTouchMove 50 expanded_a = expanded_a
   \<and> stack_onTouchStart 10 previewing = previewing \<and> stack_onTouchMove 50 previewing = previewing
   \<and> stack_onTouchStart 10 initial_app = initial_app
   \<and> stack_onTouchMove 50 initial_app = initial_app"
  using gestures_ignored_when_disabled [of expanded_a 10]
    gestures_ignored_when_disabled [of expanded_a 50]
    gestures_ignored_when_disabled [of previewing 10]
    gestures_ignored_when_disabled [of previewing 50]
    gestures_ignored_when_disabled [of initial_app 10]
    gestures_ignored_when_disabled [of initial_app 50]
  by (simp add: expanded_a_def previewing_def sample_stack_def initial_app_def truthy_def)

subsection \<open>Single-flight refresh\<close>

lemma fire_refreshingCardId: "refreshingCardId (fire s e) = refreshingCardId s"
proof (cases e)
  case (TouchStart x)
  then show ?thesis by (simp add: stack_onTouchStart_def handleTouchStart_def)
next
  case (TouchMove x)
  then show ?thesis
    by (simp add: stack_onTouchMove_def handleTouchMove_def Let_def split: option.splits)
next
  case TouchEnd
  then show ?thesis
    by (simp add: stack_onTouchEnd_def handleTouchEnd_def Let_def split: option.splits)
next
  case (CardClick offset)
  then show ?thesis by (simp add: card_onClick_def split: option.splits)
next
  case RemoveClick
  then show ?thesis
    by (simp add: remove_onClick_def handleRemoveCard_def Let_def split: option.splits)
next
  case SavePreview
  then show ?thesis by (simp add: handleSavePreview_def split: option.splits)
next
  case CancelPreview
  then show ?thesis by (simp add: preview_onToggleExpand_def)
next
  case CloseExpanded
  then show ?thesis by (simp add: expanded_onToggleExpand_def)
next
  case FantasyCreate
  then show ?thesis by (simp add: handleFantasyCreate_begin_def)
next
  case (FantasyResolved c)
  then show ?thesis by (simp add: handleFantasyCreate_resolved_def)
next
  case FantasyRejected
  then show ?thesis by (simp add: handleFantasyCreate_rejected_def)
qed

lemma foldl_fire_refreshingCardId: "refreshingCardId (foldl fire s evs) = refreshingCardId s"
  by (induction evs arbitrary: s) (simp_all add: fire_refreshingCardId)

text \<open>
  C8. While \<open>refreshingCardId\<close> is set, a call of \<open>handleRefresh\<close>, for the same card or
  another, returns the state as it is and starts no request. A call that does start a
  request sets \<open>refreshingCardId\<close>; no other handler changes it, so every further call is
  refused until the request settles, which clears it.
\<close>

theorem refresh_single_flight:
  "(truthy (refreshingCardId s) \<longrightarrow> handleRefresh_begin c s = (s, None))
   \<and> (\<not> truthy (refreshingCardId s) \<and> wid (weather c) \<noteq> [] \<longrightarrow>
        snd (handleRefresh_begin c s) = Some c
      \<and> (\<forall>evs c'. handleRefresh_begin c' (foldl fire (fst (handleRefresh_begin c s)) evs)
                    = (foldl fire (fst (handleRefresh_begin c s)) evs, None)))
   \<and> refreshingCardId (handleRefresh_settled c pv outcome s) = None"
proof (intro conjI impI allI)
  assume "truthy (refreshingCardId s)"
  then show "handleRefresh_begin c s = (s, None)"
    by (simp add: handleRefresh_begin_def)
next
  assume a: "\<not> truthy (refreshingCardId s) \<and> wid (weather c) \<noteq> []"
  then show "snd (handleRefresh_begin c s) = Some c"
    by (simp add: handleRefresh_begin_def)
  fix evs c'
  have "truthy (refreshingCardId (fst (handleRefresh_begin c s)))"
    using a by (simp add: handleRefresh_begin_def truthy_def)
  then have "truthy (refreshingCardId (foldl fire (fst (handleRefresh_begin c s)) evs))"
    by (simp add: foldl_fire_refreshingCardId)
  then show "handleRefresh_begin c' (foldl fire (fst (handleRefresh_begin c s)) evs)
               = (foldl fire (fst (handleRefresh_begin c s)) evs, None)"
    by (simp add: handleRefresh_begin_def)
next
  show "refreshingCardId (handleRefresh_settled c pv outcome s) = None"
    by (simp add: handleRefresh_settled_def Let_def)
qed

theorem refresh_single_flight_witness:
  "\<not> truthy (refreshingCardId (sample_stack [''a'', ''b'']))
   \<and> wid (weather (sample_card ''a'')) \<noteq> []
   \<and> snd (handleRefresh_begin (sample_card ''a'') (sample_stack [''a'', ''b''])) = Some (sample_card ''a'')
   \<and> truthy (refreshingCardId refreshing_a)
   \<and> handleRefresh_begin (sample_card ''a'') refreshing_a = (refreshing_a, None)
   \<and> handleRefresh_begin (sample_card ''b'') (foldl fire refreshing_a [CardClick 1, TouchStart 3])
        = (foldl fire refreshing_a [CardClick 1, TouchStart 3], None)"
proof -
  have h: "\<not> truthy (refreshingCardId (sample_stack [''a'', ''b'']))
           \<and> wid (weather (sample_card ''a'')) \<noteq> []"
    by (simp add: sample_stack_def initial_app_def truthy_def sample_card_def)
  have t: "truthy (refreshingCardId refreshing_a)"
    by (simp add: refreshing_a_def handleRefresh_begin_def h truthy_def sample_card_def)
  note r = refresh_single_flight [of "sample_stack [''a'', ''b'']" "sample_card ''a''"]
  note q = refresh_single_flight [of refreshing_a "sample_card ''a''"]
  from r h have a: "snd (handleRefresh_begin (sample_card ''a'') (sample_stack [''a'', ''b'']))
                      = Some (sample_card ''a'')"
    by blast
  from r h have b: "handleRefresh_begin (sample_card ''b'')
                      (foldl fire refreshing_a [CardClick 1, TouchStart 3])
                    = (foldl fire refreshing_a [CardClick 1, TouchStart 3], None)"
    unfolding refreshing_a_def by blast
  from q t have c: "handleRefresh_begin (sample_card ''a'') refreshing_a = (refreshing_a, None)"
    by blast
  show ?thesis
    using h t a b c by simp
qed

subsection \<open>View modes\<close>

lemma map_of_map_filter_Pair:
  "map_of (List.map_filter (\<lambda>k. map_option (Pair k) (f k)) ks) k
     = (if k \<in> set ks then f k else None)"
proof (induction ks)
  case Nil
  then show ?case by simp
next
  case (Cons a ks)
  then show ?case by (cases "f a") auto
qed

lemma renderSlot_centre:
  assumes "savedCards s \<noteq> []"
  shows "renderSlot s 0 = Some (savedCards s ! nat (activeIndex s mod int (length (savedCards s))))"
  using assms by (simp add: renderSlot_def getCardData_nonempty Let_def)

lemma renderWindow_centre:
  assumes "stack_rendered s"
  shows "map_of (renderWindow s) 0
           = Some (savedCards s ! nat (activeIndex s mod int (length (savedCards s))))"
proof -
  have ne: "savedCards s \<noteq> []"
    using assms by (auto simp add: stack_rendered_def)
  have "(0::int) \<in> set window_offsets"
    by (simp add: window_offsets_def)
  then have "map_of (renderWindow s) 0 = renderSlot s 0"
    using assms by (simp add: renderWindow_def map_of_map_filter_Pair)
  then show ?thesis
    by (simp add: renderSlot_centre [OF ne])
qed

text \<open>
  C4 (amended). Card select is not refused while a preview is shown. In the stack view a
  click on the centre card with no drag in progress sets \<open>expandedCardId\<close> to the id of
  the active card, whatever \<open>previewCard\<close> is, and changes nothing else: a preview that
  is shown stays, and \<open>expandedCardId\<close> and \<open>previewCard\<close> are then both set. A click
  on a card has no effect while a card is expanded, the stack being out of the tree.
\<close>

theorem card_select_keeps_preview:
  "(stack_rendered s \<and> \<not> isDragging s \<longrightarrow>
      card_onClick 0 s
        = s\<lparr>expandedCardId :=
              Some (wid (weather (savedCards s ! nat (activeIndex s mod int (length (savedCards s))))))\<rparr>
    \<and> previewCard (card_onClick 0 s) = previewCard s)
   \<and> (truthy (expandedCardId s) \<longrightarrow> card_onClick offset s = s)"
proof (intro conjI impI)
  assume a: "stack_rendered s \<and> \<not> isDragging s"
  then have c: "map_of (renderWindow s) 0
                  = Some (savedCards s ! nat (activeIndex s mod int (length (savedCards s))))"
    by (simp add: renderWindow_centre)
  show e: "card_onClick 0 s
        = s\<lparr>expandedCardId :=
              Some (wid (weather (savedCards s ! nat (activeIndex s mod int (length (savedCards s))))))\<rparr>"
    using a by (simp add: card_onClick_def c)
  show "previewCard (card_onClick 0 s) = previewCard s"
    by (simp add: e)
next
  assume "truthy (expandedCardId s)"
  then have "renderWindow s = []"
    by (simp add: renderWindow_def stack_rendered_def)
  then show "card_onClick offset s = s"
    by (simp add: card_onClick_def)
qed

lemma run_preview_run:
  "run preview_run
     = initial_app\<lparr>savedCards := [sample_card ''a''], previewCard := Some (sample_card ''n''),
                   state := SUCCESS\<rparr>"
  by (simp add: run_def preview_run_def initial_app_def handleFantasyCreate_begin_def
      handleFantasyCreate_resolved_def handleSavePreview_def)

text \<open>
  C4 as stated fails. After a first card is created and saved and a second one is created,
  the second is in preview over a stack of one card; a click on the centre card of the
  stack is not refused and leaves \<open>expandedCardId\<close> and \<open>previewCard\<close> both set.
\<close>

theorem mutual_exclusion_counterexample:
  "previewCard (run preview_run) = Some (sample_card ''n'')
   \<and> expandedCardId (run preview_run) = None
   \<and> run (preview_run @ [CardClick 0]) = fire (run preview_run) (CardClick 0)
   \<and> fire (run preview_run) (CardClick 0) \<noteq> run preview_run
   \<and> expandedCardId (run (preview_run @ [CardClick 0])) = Some ''a''
   \<and> previewCard (run (preview_run @ [CardClick 0])) = Some (sample_card ''n'')"
proof -
  have r: "stack_rendered (run preview_run)"
    by (simp add: run_preview_run stack_rendered_def initial_app_def truthy_def)
  have c: "card_onClick 0 (run preview_run) = (run preview_run)\<lparr>expandedCardId := Some ''a''\<rparr>"
    by (simp add: card_onClick_def renderWindow_centre [OF r])
       (simp add: run_preview_run initial_app_def sample_card_def)
  have f: "run (preview_run @ [CardClick 0]) = card_onClick 0 (run preview_run)"
    by (simp add: run_def)
  have n: "expandedCardId (card_onClick 0 (run preview_run)) \<noteq> expandedCardId (run preview_run)"
    by (simp add: c) (simp add: run_preview_run initial_app_def)
  then have d: "card_onClick 0 (run preview_run) \<noteq> run preview_run"
    by auto
  show ?thesis
    using d by (simp add: f c) (simp add: run_preview_run initial_app_def)
qed

theorem card_select_keeps_preview_witness:
  "stack_rendered (run preview_run) \<and> \<not> isDragging (run preview_run)
   \<and> card_onClick 0 (run preview_run) = (run preview_run)\<lparr>expandedCardId := Some ''a''\<rparr>
   \<and> previewCard (card_onClick 0 (run preview_run)) = Some (sample_card ''n'')
   \<and> truthy (expandedCardId expanded_a) \<and> card_onClick 0 expanded_a = expanded_a"
proof -
  have h: "stack_rendered (run preview_run) \<and> \<not> isDragging (run preview_run)"
    by (simp add: run_preview_run stack_rendered_def initial_app_def truthy_def)
  have t: "truthy (expandedCardId expanded_a)"
    by (simp add: expanded_a_def truthy_def)
  from card_select_keeps_preview [of "run preview_run" 0] h
  have a: "card_onClick 0 (run preview_run)
        = (run preview_run)\<lparr>expandedCardId :=
              Some (wid (weather (savedCards (run preview_run)
                 ! nat (activeIndex (run preview_run) mod int (length (savedCards (run preview_run)))))))\<rparr>"
    and b: "previewCard (card_onClick 0 (run preview_run)) = previewCard (run preview_run)"
    by blast+
  from card_select_keeps_preview [of expanded_a 0] t
  have c: "card_onClick 0 expanded_a = expanded_a"
    by blast
  have i: "wid (weather (savedCards (run preview_run)
                 ! nat (activeIndex (run preview_run) mod int (length (savedCards (run preview_run))))))
            = ''a''"
    by (simp add: run_preview_run initial_app_def sample_card_def)
  have p: "previewCard (run preview_run) = Some (sample_card ''n'')"
    by (simp add: run_preview_run)
  show ?thesis
    using h t a b c by (simp add: i p)
qed

subsection \<open>Layout continuity\<close>

lemma getCardStyle_near_zero:
  fixes p :: real
  assumes p: "real_of_int off + d / screenWidth s = p" and small: "\<bar>p\<bar> < 1 / 5"
  shows "translateX (getCardStyle (s\<lparr>dragX := d\<rparr>) off) = (if p < 0 then p * parked s else p * 20)"
    and "scale (getCardStyle (s\<lparr>dragX := d\<rparr>) off) = 1 - \<bar>p\<bar> * 0.05"
    and "opacity (getCardStyle (s\<lparr>dragX := d\<rparr>) off) = 1"
proof -
  show "translateX (getCardStyle (s\<lparr>dragX := d\<rparr>) off) = (if p < 0 then p * parked s else p * 20)"
    by (simp add: getCardStyle_def Let_def parked_def p)
  have lo: "- (1 / 5) < p" and hi: "p < 1 / 5"
    using small by (simp_all add: abs_less_iff)
  show "scale (getCardStyle (s\<lparr>dragX := d\<rparr>) off) = 1 - \<bar>p\<bar> * 0.05"
  proof (cases "p < 0")
    case True
    have m: "max p (- 1) = p" using lo by (simp add: max_def)
    have "1 / 2 \<le> 1 + p / 20" using lo by simp
    then have h: "max (1 / 2) (1 + p / 20) = 1 + p / 20" by (simp add: max_def)
    show ?thesis
      using True by (simp add: getCardStyle_def Let_def p m h)
  next
    case False
    have "1 / 2 \<le> 1 - p / 20" using hi by simp
    then have h: "max (1 / 2) (1 - p / 20) = 1 - p / 20" by (simp add: max_def)
    show ?thesis
      using False by (simp add: getCardStyle_def Let_def p h)
  qed
  have "\<not> p < - 0.2" and "\<not> p > 3" using lo hi by simp_all
  then show "opacity (getCardStyle (s\<lparr>dragX := d\<rparr>) off) = 1"
    by (simp add: getCardStyle_def Let_def p)
qed

text \<open>
  C6. \<open>getCardStyle\<close> is continuous at \<open>progress = 0\<close>: at \<open>progress = 0\<close> the style has
  \<open>translateX = 0\<close>, \<open>scale = 1\<close> and \<open>opacity = 1\<close>, and for every \<open>\<epsilon> > 0\<close> there is
  a \<open>\<delta> > 0\<close> such that whenever \<open>\<bar>progress\<bar> < \<delta>\<close>, on the discard side
  (\<open>progress < 0\<close>) as on the stack side (\<open>progress \<ge> 0\<close>), the three values are within
  \<open>\<epsilon>\<close> of these.
\<close>

theorem layout_continuous_at_zero:
  assumes "0 < screenWidth s" and "0 < eps"
  shows "(\<forall>off d. real_of_int off + d / screenWidth s = 0 \<longrightarrow>
            translateX (getCardStyle (s\<lparr>dragX := d\<rparr>) off) = 0
          \<and> scale (getCardStyle (s\<lparr>dragX := d\<rparr>) off) = 1
          \<and> opacity (getCardStyle (s\<lparr>dragX := d\<rparr>) off) = 1)
       \<and> (\<exists>\<delta>>0. \<forall>off d. \<bar>real_of_int off + d / screenWidth s\<bar> < \<delta> \<longrightarrow>
            \<bar>translateX (getCardStyle (s\<lparr>dragX := d\<rparr>) off)\<bar> < eps
          \<and> \<bar>scale (getCardStyle (s\<lparr>dragX := d\<rparr>) off) - 1\<bar> < eps
          \<and> \<bar>opacity (getCardStyle (s\<lparr>dragX := d\<rparr>) off) - 1\<bar> < eps)"
proof (intro conjI allI impI)
  fix off d
  assume z: "real_of_int off + d / screenWidth s = 0"
  have small: "\<bar>0::real\<bar> < 1 / 5" by simp
  note v = getCardStyle_near_zero [OF z small]
  show "translateX (getCardStyle (s\<lparr>dragX := d\<rparr>) off) = 0" by (simp add: v)
  show "scale (getCardStyle (s\<lparr>dragX := d\<rparr>) off) = 1" by (simp add: v)
  show "opacity (getCardStyle (s\<lparr>dragX := d\<rparr>) off) = 1" by (simp add: v)
next
  define K where "K = parked s + 20"
  have K: "20 \<le> K" by (simp add: K_def parked_def)
  define \<delta> where "\<delta> = min (1 / 5) (eps / K)"
  have dpos: "0 < \<delta>" using assms(2) K by (simp add: \<delta>_def)
  have "\<forall>off d. \<bar>real_of_int off + d / screenWidth s\<bar> < \<delta> \<longrightarrow>
            \<bar>translateX (getCardStyle (s\<lparr>dragX := d\<rparr>) off)\<bar> < eps
          \<and> \<bar>scale (getCardStyle (s\<lparr>dragX := d\<rparr>) off) - 1\<bar> < eps
          \<and> \<bar>opacity (getCardStyle (s\<lparr>dragX := d\<rparr>) off) - 1\<bar> < eps"
  proof (intro allI impI)
    fix off d
    define p where "p = real_of_int off + d / screenWidth s"
    assume "\<bar>real_of_int off + d / screenWidth s\<bar> < \<delta>"
    then have pd: "\<bar>p\<bar> < \<delta>" by (simp add: p_def)
    then have small: "\<bar>p\<bar> < 1 / 5" by (simp add: \<delta>_def)
    have "\<bar>p\<bar> < eps / K" using pd by (simp add: \<delta>_def)
    then have pK: "\<bar>p\<bar> * K < eps" using K by (simp add: pos_less_divide_eq)
    note v = getCardStyle_near_zero [OF p_def [symmetric] small]
    have k0: "0 \<le> parked s" by (simp add: parked_def)
    have "\<bar>p\<bar> * parked s \<le> \<bar>p\<bar> * K"
      by (rule mult_left_mono) (simp_all add: K_def)
    moreover have "\<bar>p\<bar> * 20 \<le> \<bar>p\<bar> * K"
      by (rule mult_left_mono) (use K in simp_all)
    moreover have "\<bar>p * parked s\<bar> = \<bar>p\<bar> * parked s"
      using k0 by (simp add: abs_mult)
    moreover have "\<bar>p * 20\<bar> = \<bar>p\<bar> * 20"
      by (simp add: abs_mult)
    ultimately have "\<bar>p * parked s\<bar> < eps" and "\<bar>p * 20\<bar> < eps"
      using pK by linarith+
    then have "\<bar>if p < 0 then p * parked s else p * 20\<bar> < eps"
      by (cases "p < 0") simp_all
    then have tx: "\<bar>translateX (getCardStyle (s\<lparr>dragX := d\<rparr>) off)\<bar> < eps"
      by (simp only: v)
    have "\<bar>p\<bar> * 0.05 \<le> \<bar>p\<bar> * K"
      by (rule mult_left_mono) (use K in simp_all)
    then have "\<bar>p\<bar> * 0.05 < eps"
      using pK by linarith
    then have sc: "\<bar>scale (getCardStyle (s\<lparr>dragX := d\<rparr>) off) - 1\<bar> < eps"
      by (simp add: v)
    have op: "\<bar>opacity (getCardStyle (s\<lparr>dragX := d\<rparr>) off) - 1\<bar> < eps"
      using assms(2) by (simp add: v)
    show "\<bar>translateX (getCardStyle (s\<lparr>dragX := d\<rparr>) off)\<bar> < eps
          \<and> \<bar>scale (getCardStyle (s\<lparr>dragX := d\<rparr>) off) - 1\<bar> < eps
          \<and> \<bar>opacity (getCardStyle (s\<lparr>dragX := d\<rparr>) off) - 1\<bar> < eps"
      using tx sc op by simp
  qed
  then show "\<exists>\<delta>>0. \<forall>off d. \<bar>real_of_int off + d / screenWidth s\<bar> < \<delta> \<longrightarrow>
            \<bar>translateX (getCardStyle (s\<lparr>dragX := d\<rparr>) off)\<bar> < eps
          \<and> \<bar>scale (getCardStyle (s\<lparr>dragX := d\<rparr>) off) - 1\<bar> < eps
          \<and> \<bar>opacity (getCardStyle (s\<lparr>dragX := d\<rparr>) off) - 1\<bar> < eps"
    using dpos by blast
qed

theorem layout_continuous_at_zero_witness:
  "0 < screenWidth initial_app \<and> (0::real) < 1 / 100
   \<and> real_of_int (- 1) + 375 / screenWidth initial_app = 0
   \<and> translateX (getCardStyle (initial_app\<lparr>dragX := 375\<rparr>) (- 1)) = 0
   \<and> scale (getCardStyle (initial_app\<lparr>dragX := 375\<rparr>) (- 1)) = 1
   \<and> opacity (getCardStyle (initial_app\<lparr>dragX := 375\<rparr>) (- 1)) = 1
   \<and> \<bar>translateX (getCardStyle (initial_app\<lparr>dragX := 0\<rparr>) 0)\<bar> < 1 / 100
   \<and> \<bar>scale (getCardStyle (initial_app\<lparr>dragX := 0\<rparr>) 0) - 1\<bar> < 1 / 100
   \<and> \<bar>opacity (getCardStyle (initial_app\<lparr>dragX := 0\<rparr>) 0) - 1\<bar> < 1 / 100"
proof -
  have w: "0 < screenWidth initial_app" by (simp add: initial_app_def)
  have e: "(0::real) < 1 / 100" by simp
  have z: "real_of_int (- 1) + 375 / screenWidth initial_app = 0"
    by (simp add: initial_app_def)
  have z0: "\<And>\<delta>::real. 0 < \<delta> \<Longrightarrow> \<bar>real_of_int 0 + 0 / screenWidth initial_app\<bar> < \<delta>"
    by simp
  note t = layout_continuous_at_zero [OF w e]
  from t z have a: "translateX (getCardStyle (initial_app\<lparr>dragX := 375\<rparr>) (- 1)) = 0
      \<and> scale (getCardStyle (initial_app\<lparr>dragX := 375\<rparr>) (- 1)) = 1
      \<and> opacity (getCardStyle (initial_app\<lparr>dragX := 375\<rparr>) (- 1)) = 1"
    by blast
  from t z0 have b: "\<bar>translateX (getCardStyle (initial_app\<lparr>dragX := 0\<rparr>) 0)\<bar> < 1 / 100
      \<and> \<bar>scale (getCardStyle (initial_app\<lparr>dragX := 0\<rparr>) 0) - 1\<bar> < 1 / 100
      \<and> \<bar>opacity (getCardStyle (initial_app\<lparr>dragX := 0\<rparr>) 0) - 1\<bar> < 1 / 100"
    by blast
  show ?thesis
    using w e z a b by blast
qed

end
